theory Spec2Isabelle
  imports Main
begin

section \<open>Python strings\<close>

text \<open>
  A Python \<^verbatim>\<open>str\<close> is a sequence of Unicode code points. The content of a message is such
  a sequence, written as a list of code point numbers; \<open>str\<close> turns a literal into it.
  Identifiers, dictionary keys and tool names, which the program only compares and
  concatenates, are written as literals.
\<close>

type_synonym pystr = "nat list"

definition str :: "string \<Rightarrow> pystr" where
  "str s = map of_char s"

text \<open>
  \<^verbatim>\<open>str.lower\<close> maps every code point to its lowercase, which may be several code points.
  For the code points below 128 the mapping is written out: the letters A to Z move to a
  to z, the rest stays. For the others it is read from the Unicode character database,
  which is not part of the repository and is a parameter here: \<open>to_lower_full\<close> gives the
  lowercase of a code point, and \<open>final_sigma\<close> tells whether the capital sigma (U+03A3)
  at a position of a string stands at the end of a word, where it becomes the final small
  sigma (U+03C2) instead of the small sigma (U+03C3).
\<close>

record unicode =
  to_lower_full :: "nat \<Rightarrow> pystr"
  final_sigma :: "pystr \<Rightarrow> nat \<Rightarrow> bool"

definition lower_code_point :: "unicode \<Rightarrow> pystr \<Rightarrow> nat \<Rightarrow> nat \<Rightarrow> pystr" where
  "lower_code_point ucd s i c =
     (if 65 \<le> c \<and> c \<le> 90 then [c + 32]
      else if c < 128 then [c]
      else if c = 931 then (if final_sigma ucd s i then [962] else [963])
      else to_lower_full ucd c)"

fun lower_from :: "unicode \<Rightarrow> pystr \<Rightarrow> nat \<Rightarrow> pystr \<Rightarrow> pystr" where
  "lower_from ucd s i [] = []"
| "lower_from ucd s i (c # cs) = lower_code_point ucd s i c @ lower_from ucd s (Suc i) cs"

definition lower :: "unicode \<Rightarrow> pystr \<Rightarrow> pystr" where
  "lower ucd s = lower_from ucd s 0 s"

text \<open>\<^verbatim>\<open>s.startswith(k)\<close> and the substring test \<^verbatim>\<open>k in s\<close> of Python strings.\<close>

fun starts_with :: "'a list \<Rightarrow> 'a list \<Rightarrow> bool" where
  "starts_with s [] = True"
| "starts_with [] (k # ks) = False"
| "starts_with (c # cs) (k # ks) = (c = k \<and> starts_with cs ks)"

fun str_in :: "'a list \<Rightarrow> 'a list \<Rightarrow> bool" where
  "str_in k [] = (k = [])"
| "str_in k (c # cs) = (starts_with (c # cs) k \<or> str_in k cs)"

section \<open>Messages and State\<close>

text \<open>
  The agent of \<^verbatim>\<open>graph.py\<close> works on a transcript of messages. A message has a role
  (\<^verbatim>\<open>isinstance(m, AIMessage)\<close> is \<open>role m = AI\<close>), a content, the tool calls it requests and
  an optional identifier. The content of a message is either a text or a list of content
  blocks, each block a text or a dict; chat models return the second form too, for
  instance next to tool calls.
\<close>

datatype role = System | Human | AI | Tool

record tool_call =
  tc_name :: string
  tc_args :: "(string \<times> string) list"

datatype block = Block_str pystr | Block_dict "(string \<times> pystr) list"

datatype content = Text pystr | Blocks "block list"

record message =
  role :: role
  content :: content
  tool_calls :: "tool_call list"
  msg_id :: "string option"

datatype pyval = PyNone | PyBool bool | PyInt int | PyStr string

text \<open>
  \<^verbatim>\<open>State\<close>: the transcript, the \<^verbatim>\<open>is_last_step\<close> flag read by \<^verbatim>\<open>call_model\<close>, and
  whatever further attributes \<^verbatim>\<open>setattr\<close> has put on the object (a Python dict: an
  association list with distinct keys, in insertion order).
\<close>

record state =
  messages :: "message list"
  is_last_step :: bool
  extras :: "(string \<times> pyval) list"

text \<open>
  The exceptions of the source as values. Both \<^verbatim>\<open>raise ValueError\<close> statements of the
  source get a constructor of their own, named as the specification names them:
  \<open>TypeKind\<close> is line 59 (router, last message not an \<^verbatim>\<open>AIMessage\<close>), \<open>NotFoundKind\<close> is
  line 129 (unknown checkpoint). \<open>IndexError\<close> is \<^verbatim>\<open>state.messages[-1]\<close> on an empty
  transcript; \<open>AttributeError\<close> is \<^verbatim>\<open>.lower()\<close> called on a list (line 51);
  \<open>ToolNodeValueError\<close> is the \<^verbatim>\<open>ValueError\<close> of the tool node on a transcript it cannot
  serve; \<open>CollaboratorError\<close> is whatever an external collaborator raises.
\<close>

datatype error =
  IndexError | TypeKind | NotFoundKind string | AttributeError | ToolNodeValueError
  | CollaboratorError string

section \<open>The sensitive-keyword scan\<close>

definition sensitive_keywords :: "pystr list" where
  "sensitive_keywords = [str ''suicide'', str ''kill myself'', str ''password'', str ''credentials'']"

text \<open>
  The expression \<^verbatim>\<open>message.content or ""\<close>: an empty text and an empty list are both
  falsy and give the empty text; any other content is kept as it is.
\<close>

definition content_or_empty :: "message \<Rightarrow> content" where
  "content_or_empty m =
     (case content m of
        Text t \<Rightarrow> Text t
      | Blocks [] \<Rightarrow> Text []
      | Blocks (b # bs) \<Rightarrow> Blocks (b # bs))"

text \<open>The method call \<^verbatim>\<open>.lower()\<close>: a text has the method, a list has not.\<close>

definition lower_method :: "unicode \<Rightarrow> content \<Rightarrow> error + pystr" where
  "lower_method ucd c =
     (case c of Text t \<Rightarrow> Inr (lower ucd t) | Blocks bs \<Rightarrow> Inl AttributeError)"

definition contains_sensitive_info :: "unicode \<Rightarrow> message \<Rightarrow> error + bool" where
  "contains_sensitive_info ucd m =
     (case lower_method ucd (content_or_empty m) of
        Inl e \<Rightarrow> Inl e
      | Inr content' \<Rightarrow>
          Inr (list_ex (\<lambda>keyword. str_in keyword content') sensitive_keywords))"

section \<open>The router\<close>

text \<open>The three literals \<^verbatim>\<open>"__end__"\<close>, \<^verbatim>\<open>"tools"\<close>, \<^verbatim>\<open>"human_review"\<close> the router returns.\<close>

datatype route = Route_end | Route_tools | Route_human_review

definition route_model_output :: "unicode \<Rightarrow> state \<Rightarrow> error + route" where
  "route_model_output ucd st =
     (if messages st = [] then Inl IndexError
      else let last_message = last (messages st) in
        if role last_message \<noteq> AI then Inl TypeKind
        else (case contains_sensitive_info ucd last_message of
                Inl e \<Rightarrow> Inl e
              | Inr True \<Rightarrow> Inr Route_human_review
              | Inr False \<Rightarrow>
                  if tool_calls last_message \<noteq> [] then Inr Route_tools
                  else Inr Route_end))"

section \<open>The nodes\<close>

text \<open>
  A node returns a Python dict; the runner looks only at its key \<^verbatim>\<open>"messages"\<close>. The dict
  is an association list from keys to message lists.
\<close>

type_synonym node_output = "(string \<times> message list) list"

text \<open>
  The language model is an external collaborator: \<^verbatim>\<open>model.ainvoke\<close> takes the system
  message followed by the transcript and returns the response, or raises. The system
  prompt with its timestamp is a parameter.
\<close>

type_synonym chat_model = "message list \<Rightarrow> error + message"

definition fallback_text :: pystr where
  "fallback_text =
     str ''Sorry, I could not find an answer to your question in the specified number of steps.''"

definition call_model :: "chat_model \<Rightarrow> pystr \<Rightarrow> state \<Rightarrow> error + node_output" where
  "call_model model system_message st =
     (case model (\<lparr>role = System, content = Text system_message, tool_calls = [],
                    msg_id = None\<rparr> # messages st) of
        Inl e \<Rightarrow> Inl e
      | Inr response \<Rightarrow>
          if is_last_step st \<and> tool_calls response \<noteq> [] then
            Inr [(''messages'',
                  [\<lparr>role = AI, content = Text fallback_text, tool_calls = [],
                    msg_id = msg_id response\<rparr>])]
          else Inr [(''messages'', [response])])"

definition human_review :: "state \<Rightarrow> error + node_output" where
  "human_review st =
     (if messages st = [] then Inl IndexError
      else let last_message = last (messages st) in Inr [(''messages'', [last_message])])"

section \<open>The checkpoint store\<close>

text \<open>
  \<^verbatim>\<open>CHECKPOINTS\<close> is a Python dict from identifiers to serialized states. A dict keeps its
  keys in insertion order; assigning to a key that is present replaces the value in place,
  assigning to a new key appends.
\<close>

type_synonym checkpoints = "(string \<times> string) list"

fun dict_set :: "'k \<Rightarrow> 'v \<Rightarrow> ('k \<times> 'v) list \<Rightarrow> ('k \<times> 'v) list" where
  "dict_set k v [] = [(k, v)]"
| "dict_set k v ((k', v') # d) =
     (if k' = k then (k, v) # d else (k', v') # dict_set k v d)"

definition dict_get :: "('k \<times> 'v) list \<Rightarrow> 'k \<Rightarrow> 'v option" where
  "dict_get d k = map_of d k"

text \<open>The decimal text of a natural number, as an f-string prints \<^verbatim>\<open>len(CHECKPOINTS)\<close>.\<close>

definition digit_char :: "nat \<Rightarrow> char" where
  "digit_char d = ''0123456789'' ! d"

fun str_of_nat :: "nat \<Rightarrow> string" where
  "str_of_nat n =
     (if n < 10 then [digit_char n] else str_of_nat (n div 10) @ [digit_char (n mod 10)])"

declare str_of_nat.simps [simp del]

text \<open>The f-string \<^verbatim>\<open>f"ckpt_{n}"\<close>, and its use \<^verbatim>\<open>f"ckpt_{len(CHECKPOINTS)}"\<close> on lines 145 and 161.\<close>

definition ckpt :: "nat \<Rightarrow> string" where
  "ckpt n = ''ckpt_'' @ str_of_nat n"

definition checkpoint_id :: "checkpoints \<Rightarrow> string" where
  "checkpoint_id cps = ckpt (length cps)"

text \<open>
  Lines 145-146 and 161-162: the identifier is taken from the size of the store and the
  snapshot is stored under it. The result is the identifier and the new store.
\<close>

definition store_snapshot :: "string \<Rightarrow> checkpoints \<Rightarrow> string \<times> checkpoints" where
  "store_snapshot snapshot cps =
     (let cid = checkpoint_id cps in (cid, dict_set cid snapshot cps))"

definition list_checkpoints :: "checkpoints \<Rightarrow> string list" where
  "list_checkpoints cps = map fst cps"

text \<open>
  The store after the snapshots \<open>snapshots\<close> have been saved one after the other, starting
  from the empty \<^verbatim>\<open>CHECKPOINTS = {}\<close> of line 95. Nothing in the source writes to the store
  but these saves, so these are the stores a program can be in.
\<close>

definition store_after :: "string list \<Rightarrow> checkpoints" where
  "store_after snapshots =
     foldl (\<lambda>cps snapshot. snd (store_snapshot snapshot cps)) [] snapshots"

section \<open>Collaborators that are not in this file\<close>

text \<open>
  \<^verbatim>\<open>graph.py\<close> calls code it does not define: the constructor \<^verbatim>\<open>State(input=...)\<close>, the
  methods \<^verbatim>\<open>State.to_dict\<close> and \<^verbatim>\<open>State.from_dict\<close>, \<^verbatim>\<open>json.dumps\<close> and \<^verbatim>\<open>json.loads\<close>, and
  the methods \<^verbatim>\<open>graph.execute\<close> and \<^verbatim>\<open>graph.is_terminal\<close>. They are parameters of the
  model, each either returning a value or raising. \<open>'d\<close> is the type of the dict between
  \<^verbatim>\<open>to_dict\<close> and \<^verbatim>\<open>json.dumps\<close>; \<open>'g\<close> is whatever the graph object remembers between two
  calls (its position). \<^verbatim>\<open>graph.execute\<close> reads the state and returns the output of the
  node it ran; the nodes of this file do not assign to the state.
\<close>

record ('d, 'g) collaborators =
  new_state :: "message list \<Rightarrow> state"
  to_dict :: "state \<Rightarrow> error + 'd"
  from_dict :: "'d \<Rightarrow> error + state"
  json_dumps :: "'d \<Rightarrow> error + string"
  json_loads :: "string \<Rightarrow> error + 'd"
  graph_execute :: "'g \<Rightarrow> state \<Rightarrow> error + (node_output \<times> 'g)"
  graph_is_terminal :: "'g \<Rightarrow> state \<Rightarrow> error + bool"

definition serialize_state :: "('d, 'g) collaborators \<Rightarrow> state \<Rightarrow> error + string" where
  "serialize_state env st =
     (case to_dict env st of Inl e \<Rightarrow> Inl e | Inr d \<Rightarrow> json_dumps env d)"

definition deserialize_state :: "('d, 'g) collaborators \<Rightarrow> string \<Rightarrow> error + state" where
  "deserialize_state env serialized =
     (case json_loads env serialized of Inl e \<Rightarrow> Inl e | Inr data \<Rightarrow> from_dict env data)"

section \<open>The time-travel runner\<close>

text \<open>
  \<^verbatim>\<open>modifications\<close> is a dict from attribute names to values, applied with \<^verbatim>\<open>setattr\<close> in
  the dict's order. The model takes modifications that are well typed for the State: the
  key \<^verbatim>\<open>"messages"\<close> carries a list of messages, \<^verbatim>\<open>"is_last_step"\<close> a truth value, and any
  other key sets an extra attribute.
\<close>

datatype modification =
  Set_messages "message list" | Set_is_last_step bool | Set_extra string pyval

fun setattr :: "state \<Rightarrow> modification \<Rightarrow> state" where
  "setattr st (Set_messages ms) = st\<lparr>messages := ms\<rparr>"
| "setattr st (Set_is_last_step b) = st\<lparr>is_last_step := b\<rparr>"
| "setattr st (Set_extra k v) = st\<lparr>extras := dict_set k v (extras st)\<rparr>"

definition apply_modifications :: "modification list option \<Rightarrow> state \<Rightarrow> state" where
  "apply_modifications modifications st =
     (case modifications of None \<Rightarrow> st | Some ms \<Rightarrow> foldl setattr st ms)"

text \<open>Lines 153-154: \<^verbatim>\<open>if "messages" in output: state.messages.extend(output["messages"])\<close>.\<close>

definition merge_output :: "state \<Rightarrow> node_output \<Rightarrow> state" where
  "merge_output st output =
     (case dict_get output ''messages'' of
        None \<Rightarrow> st
      | Some ms \<Rightarrow> st\<lparr>messages := messages st @ ms\<rparr>)"

text \<open>
  What a run is observed to do. The trace lists, in order, every write to
  \<^verbatim>\<open>CHECKPOINTS\<close> (identifier and snapshot) and every call of \<^verbatim>\<open>graph.execute\<close> (with the
  state it was given). A call of the runner either returns the final state, raises, or is
  still in its \<^verbatim>\<open>while True\<close> loop after as many iterations as the fuel allows.
\<close>

datatype event = Saved string string | Executed state

datatype outcome = Returned state | Raised error | Running

record 'g run_result =
  outcome :: outcome
  store :: checkpoints
  position :: 'g
  trace :: "event list"

text \<open>
  The loop of lines 143-165. One unit of fuel is one iteration; the final save of lines
  161-162 belongs to the iteration that found the state terminal.
\<close>

fun run_loop ::
  "nat \<Rightarrow> ('d, 'g) collaborators \<Rightarrow> 'g \<Rightarrow> state \<Rightarrow> checkpoints \<Rightarrow> 'g run_result" where
  "run_loop 0 env g st cps = \<lparr>outcome = Running, store = cps, position = g, trace = []\<rparr>"
| "run_loop (Suc fuel) env g st cps =
     (case serialize_state env st of
        Inl e \<Rightarrow> \<lparr>outcome = Raised e, store = cps, position = g, trace = []\<rparr>
      | Inr snapshot \<Rightarrow>
          let (cid, cps1) = store_snapshot snapshot cps in
          (case graph_execute env g st of
             Inl e \<Rightarrow>
               \<lparr>outcome = Raised e, store = cps1, position = g,
                 trace = [Saved cid snapshot, Executed st]\<rparr>
           | Inr (output, g1) \<Rightarrow>
               let st1 = merge_output st output in
               (case graph_is_terminal env g1 st1 of
                  Inl e \<Rightarrow>
                    \<lparr>outcome = Raised e, store = cps1, position = g1,
                      trace = [Saved cid snapshot, Executed st]\<rparr>
                | Inr False \<Rightarrow>
                    (let r = run_loop fuel env g1 st1 cps1
                     in r\<lparr>trace := Saved cid snapshot # Executed st # trace r\<rparr>)
                | Inr True \<Rightarrow>
                    (case serialize_state env st1 of
                       Inl e \<Rightarrow>
                         \<lparr>outcome = Raised e, store = cps1, position = g1,
                           trace = [Saved cid snapshot, Executed st]\<rparr>
                     | Inr final_snapshot \<Rightarrow>
                         let (final_ckpt_id, cps2) = store_snapshot final_snapshot cps1 in
                         \<lparr>outcome = Returned st1, store = cps2, position = g1,
                           trace = [Saved cid snapshot, Executed st,
                                    Saved final_ckpt_id final_snapshot]\<rparr>))))"

text \<open>
  \<^verbatim>\<open>run_agent_with_time_travel\<close>, lines 116-165. The store and the graph object are
  globals of the module: they come in as arguments and go out in the result.
\<close>

definition run_agent_with_time_travel ::
  "nat \<Rightarrow> ('d, 'g) collaborators \<Rightarrow> 'g \<Rightarrow> checkpoints \<Rightarrow> message list \<Rightarrow> string option \<Rightarrow>
   modification list option \<Rightarrow> 'g run_result" where
  "run_agent_with_time_travel fuel env g cps initial_input resume_checkpoint_id modifications =
     (case resume_checkpoint_id of
        Some rid \<Rightarrow>
          (case dict_get cps rid of
             None \<Rightarrow> \<lparr>outcome = Raised (NotFoundKind rid), store = cps, position = g, trace = []\<rparr>
           | Some serialized_state \<Rightarrow>
               (case deserialize_state env serialized_state of
                  Inl e \<Rightarrow> \<lparr>outcome = Raised e, store = cps, position = g, trace = []\<rparr>
                | Inr st \<Rightarrow> run_loop fuel env g (apply_modifications modifications st) cps))
      | None \<Rightarrow> run_loop fuel env g (new_state env initial_input) cps)"

section \<open>The graph, stepped one node at a time\<close>

datatype node = Node_call_model | Node_tools | Node_human_review

text \<open>
  Modelled from the spec: the tool-execution node \<^verbatim>\<open>ToolNode(TOOLS)\<close> (line 77), whose code is
  not in the repository. It hands every tool call of the last message to the tool
  collaborator and returns one result message per call. On a transcript that is empty or
  does not end with an assistant message it raises a \<^verbatim>\<open>ValueError\<close>.
\<close>

definition tool_node :: "(tool_call \<Rightarrow> message) \<Rightarrow> state \<Rightarrow> error + node_output" where
  "tool_node tool st =
     (if messages st = [] then Inl ToolNodeValueError
      else if role (last (messages st)) \<noteq> AI then Inl ToolNodeValueError
      else Inr [(''messages'', map tool (tool_calls (last (messages st))))])"

text \<open>
  What the graph object remembers between two calls: the node it ran last (\<open>None\<close> before
  the first step) and how often it has called the model.
\<close>

record graph_memory =
  last_node :: "node option"
  model_calls :: nat

definition graph_start :: graph_memory where
  "graph_start = \<lparr>last_node = None, model_calls = 0\<rparr>"

text \<open>
  Modelled from the spec: the node that runs next, which \<^verbatim>\<open>graph.execute\<close> and
  \<^verbatim>\<open>graph.is_terminal\<close> (called on lines 150 and 157, defined nowhere in the repository)
  have to agree on. The edges are those of lines 80-86: from the start to \<^verbatim>\<open>call_model\<close>;
  from \<^verbatim>\<open>call_model\<close> to what \<open>route_model_output\<close> answers on the merged state; from the
  tools back to \<^verbatim>\<open>call_model\<close>; from \<^verbatim>\<open>human_review\<close> to the end. The result \<open>None\<close> is the
  end.
\<close>

definition next_node :: "unicode \<Rightarrow> graph_memory \<Rightarrow> state \<Rightarrow> error + node option" where
  "next_node ucd g st =
     (case last_node g of
        None \<Rightarrow> Inr (Some Node_call_model)
      | Some Node_call_model \<Rightarrow>
          (case route_model_output ucd st of
             Inl e \<Rightarrow> Inl e
           | Inr Route_end \<Rightarrow> Inr None
           | Inr Route_tools \<Rightarrow> Inr (Some Node_tools)
           | Inr Route_human_review \<Rightarrow> Inr (Some Node_human_review))
      | Some Node_tools \<Rightarrow> Inr (Some Node_call_model)
      | Some Node_human_review \<Rightarrow> Inr None)"

text \<open>
  Modelled from the spec: \<^verbatim>\<open>graph.execute\<close>, one node per call (section 4.6 of the
  specification: "execute exactly one Step"), with the step budget \<open>N\<close> of the
  specification (section 3: the State carries the "is last allowed step" flag; glossary:
  the step budget is "the maximum number of model-call iterations before forced
  termination"). It runs the next node on the state and returns that node's output; at
  the end it does nothing. The model-call node is handed the state with the flag set when
  the state has it set already or when the call is the \<open>N\<close>-th.
\<close>

definition graph_step ::
  "unicode \<Rightarrow> chat_model \<Rightarrow> pystr \<Rightarrow> (tool_call \<Rightarrow> message) \<Rightarrow> nat \<Rightarrow> graph_memory \<Rightarrow> state \<Rightarrow>
   error + (node_output \<times> graph_memory)" where
  "graph_step ucd model system_message tool N g st =
     (case next_node ucd g st of
        Inl e \<Rightarrow> Inl e
      | Inr None \<Rightarrow> Inr ([], g)
      | Inr (Some Node_call_model) \<Rightarrow>
          (case call_model model system_message
                  (st\<lparr>is_last_step := is_last_step st \<or> N \<le> Suc (model_calls g)\<rparr>) of
             Inl e \<Rightarrow> Inl e
           | Inr out \<Rightarrow>
               Inr (out, \<lparr>last_node = Some Node_call_model,
                          model_calls = Suc (model_calls g)\<rparr>))
      | Inr (Some Node_tools) \<Rightarrow>
          (case tool_node tool st of
             Inl e \<Rightarrow> Inl e
           | Inr out \<Rightarrow> Inr (out, g\<lparr>last_node := Some Node_tools\<rparr>))
      | Inr (Some Node_human_review) \<Rightarrow>
          (case human_review st of
             Inl e \<Rightarrow> Inl e
           | Inr out \<Rightarrow> Inr (out, g\<lparr>last_node := Some Node_human_review\<rparr>)))"

text \<open>
  Modelled from the spec: \<^verbatim>\<open>graph.is_terminal\<close>. The state is terminal when the next node
  is the end.
\<close>

definition graph_terminal :: "unicode \<Rightarrow> graph_memory \<Rightarrow> state \<Rightarrow> error + bool" where
  "graph_terminal ucd g st =
     (case next_node ucd g st of Inl e \<Rightarrow> Inl e | Inr n \<Rightarrow> Inr (n = None))"

text \<open>
  The collaborators of a run on this graph: the serializer and the constructor are those
  of \<open>env\<close>, the graph is stepped by \<open>graph_step\<close> and \<open>graph_terminal\<close>.
\<close>

definition on_graph ::
  "unicode \<Rightarrow> chat_model \<Rightarrow> pystr \<Rightarrow> (tool_call \<Rightarrow> message) \<Rightarrow> nat \<Rightarrow> ('d, 'x) collaborators \<Rightarrow>
   ('d, graph_memory) collaborators" where
  "on_graph ucd model system_message tool N env =
     \<lparr>new_state = new_state env, to_dict = to_dict env, from_dict = from_dict env,
      json_dumps = json_dumps env, json_loads = json_loads env,
      graph_execute = graph_step ucd model system_message tool N,
      graph_is_terminal = graph_terminal ucd\<rparr>"

section \<open>Reading a trace\<close>

text \<open>
  \<open>saved_before_each_step ser t\<close>: the trace \<open>t\<close> is a sequence of pairs, a save followed by
  the step on the very state whose snapshot (under the serializer \<open>ser\<close>) was saved, with
  at most one more save at its end.
\<close>

fun saved_before_each_step :: "(state \<Rightarrow> error + string) \<Rightarrow> event list \<Rightarrow> bool" where
  "saved_before_each_step ser [] = True"
| "saved_before_each_step ser [Saved cid snapshot] = True"
| "saved_before_each_step ser (Saved cid snapshot # Executed st # rest) =
     (ser st = Inr snapshot \<and> saved_before_each_step ser rest)"
| "saved_before_each_step ser (e # rest) = False"

fun is_save :: "event \<Rightarrow> bool" where
  "is_save (Saved cid snapshot) = True"
| "is_save (Executed st) = False"

definition count_saves :: "event list \<Rightarrow> nat" where
  "count_saves t = length (filter is_save t)"

definition count_steps :: "event list \<Rightarrow> nat" where
  "count_steps t = length (filter (\<lambda>e. \<not> is_save e) t)"

text \<open>The snapshots a trace saves, in order.\<close>

fun saved_snapshots :: "event list \<Rightarrow> string list" where
  "saved_snapshots [] = []"
| "saved_snapshots (Saved cid snapshot # t) = snapshot # saved_snapshots t"
| "saved_snapshots (Executed st # t) = saved_snapshots t"

text \<open>The writes of a trace, replayed on a store.\<close>

fun replay_saves :: "event list \<Rightarrow> checkpoints \<Rightarrow> checkpoints" where
  "replay_saves [] cps = cps"
| "replay_saves (Saved cid snapshot # t) cps = replay_saves t (dict_set cid snapshot cps)"
| "replay_saves (Executed st # t) cps = replay_saves t cps"

section \<open>Concrete collaborators for instances\<close>

text \<open>
  The theorems below hold for every choice of the collaborators. To instantiate them a
  concrete choice is needed. Here: a fragment of the Unicode database (the Kelvin sign
  U+212A lowers to k, the dotted capital I U+0130 to i followed by U+0307, the capital
  letters of Latin-1 to their small ones, no sigma is final); a fresh State holds the
  input messages, a clear flag and no extras; the dict of a State is the State itself; the
  JSON text is one fixed string and reading any text gives the State \<open>demo_state\<close>; the
  graph of \<open>demo_env\<close> runs a single step that appends no message and is then terminal.
  None of this is taken from the repository.
\<close>

definition demo_ucd :: unicode where
  "demo_ucd =
     \<lparr>to_lower_full =
        (\<lambda>c. if c = 8490 then [107]
             else if c = 304 then [105, 775]
             else if 192 \<le> c \<and> c \<le> 222 \<and> c \<noteq> 215 then [c + 32]
             else [c]),
      final_sigma = (\<lambda>s i. False)\<rparr>"

definition demo_user_message :: message where
  "demo_user_message =
     \<lparr>role = Human, content = Text (str ''what is the weather''), tool_calls = [],
      msg_id = None\<rparr>"

definition demo_state :: state where
  "demo_state =
     \<lparr>messages = [demo_user_message,
                  \<lparr>role = AI, content = Text (str ''sunny''), tool_calls = [],
                    msg_id = Some ''run-0''\<rparr>],
      is_last_step = False, extras = []\<rparr>"

definition demo_env :: "(state, bool) collaborators" where
  "demo_env =
     \<lparr>new_state = (\<lambda>ms. \<lparr>messages = ms, is_last_step = False, extras = []\<rparr>),
      to_dict = Inr, from_dict = Inr,
      json_dumps = (\<lambda>d. Inr ''{}''), json_loads = (\<lambda>s. Inr demo_state),
      graph_execute = (\<lambda>g st. Inr ([], True)),
      graph_is_terminal = (\<lambda>g st. Inr g)\<rparr>"

text \<open>A model that asks for a search whatever it is shown, and a tool that answers.\<close>

definition search_call :: tool_call where
  "search_call = \<lparr>tc_name = ''search'', tc_args = [(''query'', ''weather'')]\<rparr>"

definition always_search :: chat_model where
  "always_search transcript =
     Inr \<lparr>role = AI, content = Text (str ''let me look that up''), tool_calls = [search_call],
          msg_id = Some ''run-1''\<rparr>"

definition always_search_password :: chat_model where
  "always_search_password transcript =
     Inr \<lparr>role = AI, content = Text (str ''I will search for your password''),
          tool_calls = [search_call], msg_id = Some ''run-2''\<rparr>"

definition demo_tool :: "tool_call \<Rightarrow> message" where
  "demo_tool c =
     \<lparr>role = Tool, content = Text (str ''no result''), tool_calls = [], msg_id = None\<rparr>"

text \<open>
  An assistant message as a chat model returns it next to a tool call: its content is a
  list of blocks, here one text block.
\<close>

definition block_message :: message where
  "block_message =
     \<lparr>role = AI,
      content = Blocks [Block_dict [(''type'', str ''text''),
                                    (''text'', str ''my password is hunter2'')]],
      tool_calls = [search_call], msg_id = Some ''run-3''\<rparr>"

section \<open>Properties of the keyword scan\<close>

lemma starts_with_iff: "starts_with s k \<longleftrightarrow> (\<exists>q. s = k @ q)"
  by (induction s k rule: starts_with.induct) auto

lemma str_in_iff: "str_in k s \<longleftrightarrow> (\<exists>p q. s = p @ k @ q)"
proof (induction s)
  case Nil
  show ?case by auto
next
  case (Cons c cs)
  show ?case
  proof
    assume "str_in k (c # cs)"
    then consider "starts_with (c # cs) k" | "str_in k cs" by auto
    then show "\<exists>p q. c # cs = p @ k @ q"
    proof cases
      case 1
      then obtain q where "c # cs = k @ q" by (auto simp: starts_with_iff)
      then have "c # cs = [] @ k @ q" by simp
      then show ?thesis by blast
    next
      case 2
      then obtain p q where "cs = p @ k @ q" using Cons.IH by auto
      then have "c # cs = (c # p) @ k @ q" by simp
      then show ?thesis by blast
    qed
  next
    assume "\<exists>p q. c # cs = p @ k @ q"
    then obtain p q where pq: "c # cs = p @ k @ q" by blast
    show "str_in k (c # cs)"
    proof (cases p)
      case Nil
      with pq have "starts_with (c # cs) k" by (auto simp: starts_with_iff)
      then show ?thesis by simp
    next
      case (Cons a p')
      with pq have "cs = p' @ k @ q" by simp
      then have "str_in k cs" using Cons.IH by blast
      then show ?thesis by simp
    qed
  qed
qed

lemmas scan_eval =
  contains_sensitive_info_def content_or_empty_def lower_method_def sensitive_keywords_def
  lower_def lower_code_point_def str_def

text \<open>
  Claim C2, at an input where the code departs from it. The claim gives every message an
  answer. On an assistant message whose content is a list with one text block, which
  mentions a password, \<open>contains_sensitive_info\<close> gives none: the list is truthy, so
  \<^verbatim>\<open>message.content or ""\<close> is the list, and \<^verbatim>\<open>.lower()\<close> raises \<open>AttributeError\<close>.
\<close>

theorem contains_sensitive_info_raises_on_blocks:
  "contains_sensitive_info ucd block_message = Inl AttributeError"
  by (simp add: contains_sensitive_info_def content_or_empty_def lower_method_def
      block_message_def)

text \<open>
  On every message whose content is a text, \<open>contains_sensitive_info\<close> returns, and returns
  true exactly when the lowercased text has one of the four keywords "suicide",
  "kill myself", "password", "credentials" as a contiguous substring. The text "PASSWORD"
  matches, whatever the Unicode database says about other code points.
\<close>

theorem contains_sensitive_info_text:
  "(content m = Text t \<longrightarrow>
      contains_sensitive_info ucd m =
        Inr (\<exists>keyword \<in> {str ''suicide'', str ''kill myself'', str ''password'',
                            str ''credentials''}.
               \<exists>p q. lower ucd t = p @ keyword @ q))
   \<and> (content m = Text (str ''PASSWORD'') \<longrightarrow> contains_sensitive_info ucd m = Inr True)"
proof (intro conjI impI)
  assume "content m = Text t"
  then show "contains_sensitive_info ucd m =
        Inr (\<exists>keyword \<in> {str ''suicide'', str ''kill myself'', str ''password'',
                            str ''credentials''}.
               \<exists>p q. lower ucd t = p @ keyword @ q)"
    unfolding contains_sensitive_info_def content_or_empty_def lower_method_def
      sensitive_keywords_def list_ex_iff
    by (simp only: str_in_iff) simp
next
  assume "content m = Text (str ''PASSWORD'')"
  then show "contains_sensitive_info ucd m = Inr True"
    by (simp add: scan_eval)
qed

theorem contains_sensitive_info_text_witness:
  "contains_sensitive_info demo_ucd
     \<lparr>role = AI, content = Text (8490 # str ''ILL Myself''), tool_calls = [], msg_id = None\<rparr>
     = Inr True
   \<and> contains_sensitive_info demo_ucd
     \<lparr>role = AI, content = Text (str ''The weather is fine''), tool_calls = [], msg_id = None\<rparr>
     = Inr False"
proof -
  let ?m = "\<lparr>role = AI, content = Text (8490 # str ''ILL Myself''), tool_calls = [],
              msg_id = None\<rparr>"
  let ?b = "\<lparr>role = AI, content = Text (str ''The weather is fine''), tool_calls = [],
              msg_id = None\<rparr>"
  have "lower demo_ucd (8490 # str ''ILL Myself'') = [] @ str ''kill myself'' @ []"
    by (simp add: scan_eval demo_ucd_def)
  then have "\<exists>keyword \<in> {str ''suicide'', str ''kill myself'', str ''password'',
                            str ''credentials''}.
         \<exists>p q. lower demo_ucd (8490 # str ''ILL Myself'') = p @ keyword @ q"
    by blast
  moreover have "content ?m = Text (8490 # str ''ILL Myself'')" by simp
  ultimately have yes: "contains_sensitive_info demo_ucd ?m = Inr True"
    using contains_sensitive_info_text [of ?m "8490 # str ''ILL Myself''" demo_ucd] by simp
  have no: "contains_sensitive_info demo_ucd ?b = Inr False"
    by (simp add: scan_eval demo_ucd_def)
  from yes no show ?thesis by blast
qed

section \<open>Properties of the router\<close>

text \<open>
  Claim C1, at an input where the code departs from it. The claim gives every state whose
  last message is an assistant message a route. On a transcript that ends with an
  assistant message whose content is a list of blocks, and which asks for a tool, the
  router gives none: the scan of line 63 raises \<open>AttributeError\<close>.
\<close>

theorem route_model_output_raises_on_blocks:
  "route_model_output ucd
     \<lparr>messages = [demo_user_message, block_message], is_last_step = False, extras = []\<rparr>
   = Inl AttributeError"
  by (simp add: route_model_output_def contains_sensitive_info_def content_or_empty_def
      lower_method_def block_message_def)

text \<open>
  Claim C9, at an input where the code departs from it. The claim has the router route
  whenever the last message is an assistant message. On the transcript that holds only the
  assistant message with a list of blocks as content, the last message is an assistant
  message, and the router neither routes nor fails with \<open>TypeKind\<close>.
\<close>

theorem route_model_output_no_route_on_blocks:
  "role (last (messages \<lparr>messages = [block_message], is_last_step = False, extras = []\<rparr>)) = AI
   \<and> (\<nexists>r. route_model_output ucd
              \<lparr>messages = [block_message], is_last_step = False, extras = []\<rparr> = Inr r)
   \<and> route_model_output ucd \<lparr>messages = [block_message], is_last_step = False, extras = []\<rparr>
       \<noteq> Inl TypeKind"
  by (simp add: route_model_output_def contains_sensitive_info_def content_or_empty_def
      lower_method_def block_message_def)

text \<open>
  On every state whose last message is an assistant message with a text as content, the
  router returns a route computed from that last message alone, in this order of
  priority: human review when the scan finds a sensitive keyword; otherwise tool execution
  when the message carries at least one tool call; otherwise the end. Any two states with
  the same last message get the same answer. The router is a function from the state to
  its answer: it returns no state, so it changes none.
\<close>

theorem route_model_output_priority:
  "messages st \<noteq> [] \<and> role (last (messages st)) = AI
     \<and> content (last (messages st)) = Text t \<longrightarrow>
     route_model_output ucd st =
       Inr (if contains_sensitive_info ucd (last (messages st)) = Inr True
            then Route_human_review
            else if tool_calls (last (messages st)) \<noteq> [] then Route_tools
            else Route_end)
     \<and> (\<forall>st'. messages st' \<noteq> [] \<and> last (messages st') = last (messages st) \<longrightarrow>
            route_model_output ucd st' = route_model_output ucd st)"
  by (simp add: route_model_output_def contains_sensitive_info_def content_or_empty_def
      lower_method_def Let_def)

theorem route_model_output_priority_witness:
  "route_model_output demo_ucd
     \<lparr>messages =
        [demo_user_message,
         \<lparr>role = AI, content = Text (str ''my password is hunter2''),
            tool_calls = [search_call], msg_id = Some ''run-1''\<rparr>],
      is_last_step = False, extras = []\<rparr>
   = Inr Route_human_review"
proof -
  let ?st = "\<lparr>messages =
        [demo_user_message,
         \<lparr>role = AI, content = Text (str ''my password is hunter2''),
            tool_calls = [search_call], msg_id = Some ''run-1''\<rparr>],
      is_last_step = False, extras = []\<rparr>"
  have pre: "messages ?st \<noteq> [] \<and> role (last (messages ?st)) = AI
      \<and> content (last (messages ?st)) = Text (str ''my password is hunter2'')"
    by simp
  have "contains_sensitive_info demo_ucd (last (messages ?st)) = Inr True"
    by (simp add: scan_eval)
  with route_model_output_priority [of ?st "str ''my password is hunter2''" demo_ucd] pre
  show ?thesis by simp
qed

text \<open>
  On every state whose last message is not an assistant message the router fails with
  \<open>TypeKind\<close>; whenever it returns a route, the transcript has a last message and that
  message is an assistant message; and it does return a route when that assistant message
  has a text as content.
\<close>

theorem route_model_output_type_error:
  "(messages st \<noteq> [] \<and> role (last (messages st)) \<noteq> AI \<longrightarrow>
      route_model_output ucd st = Inl TypeKind)
   \<and> ((\<exists>r. route_model_output ucd st = Inr r) \<longrightarrow>
        messages st \<noteq> [] \<and> role (last (messages st)) = AI)
   \<and> (messages st \<noteq> [] \<and> role (last (messages st)) = AI
        \<and> content (last (messages st)) = Text t \<longrightarrow>
        (\<exists>r. route_model_output ucd st = Inr r))"
  by (auto simp: route_model_output_def contains_sensitive_info_def content_or_empty_def
      lower_method_def Let_def split: if_splits bool.splits)

theorem route_model_output_type_error_witness:
  "route_model_output demo_ucd
     \<lparr>messages =
        [\<lparr>role = AI, content = Text (str ''let me look''),
            tool_calls = [search_call], msg_id = Some ''run-1''\<rparr>,
         \<lparr>role = Tool, content = Text (str ''42''), tool_calls = [], msg_id = None\<rparr>],
      is_last_step = False, extras = []\<rparr>
   = Inl TypeKind"
proof -
  let ?st = "\<lparr>messages =
        [\<lparr>role = AI, content = Text (str ''let me look''),
            tool_calls = [search_call], msg_id = Some ''run-1''\<rparr>,
         \<lparr>role = Tool, content = Text (str ''42''), tool_calls = [], msg_id = None\<rparr>],
      is_last_step = False, extras = []\<rparr>"
  have pre: "messages ?st \<noteq> [] \<and> role (last (messages ?st)) \<noteq> AI" by simp
  with route_model_output_type_error [of ?st demo_ucd] show ?thesis by blast
qed

section \<open>Properties of the nodes\<close>

text \<open>
  Claim C5. Whatever the model answers: when the state's flag says this is the last allowed
  step and the response requests at least one tool call, \<open>call_model\<close> returns a single
  assistant message whose content is the fixed fallback text (the response's own content is
  not used), with the identifier of the response; in every other case it returns exactly the
  response.
\<close>

theorem call_model_fallback:
  "model (\<lparr>role = System, content = Text system_message, tool_calls = [], msg_id = None\<rparr>
            # messages st) = Inr response \<longrightarrow>
     (is_last_step st \<and> tool_calls response \<noteq> [] \<longrightarrow>
        call_model model system_message st =
          Inr [(''messages'',
                [\<lparr>role = AI, content = Text fallback_text, tool_calls = [],
                  msg_id = msg_id response\<rparr>])])
     \<and> (\<not> (is_last_step st \<and> tool_calls response \<noteq> []) \<longrightarrow>
        call_model model system_message st = Inr [(''messages'', [response])])"
  by (simp add: call_model_def)

theorem call_model_fallback_witness:
  "call_model always_search (str ''be helpful'') (demo_state\<lparr>is_last_step := True\<rparr>) =
     Inr [(''messages'',
           [\<lparr>role = AI, content = Text fallback_text, tool_calls = [],
             msg_id = Some ''run-1''\<rparr>])]
   \<and> call_model always_search (str ''be helpful'') demo_state =
     Inr [(''messages'',
           [\<lparr>role = AI, content = Text (str ''let me look that up''), tool_calls = [search_call],
             msg_id = Some ''run-1''\<rparr>])]"
proof -
  let ?r = "\<lparr>role = AI, content = Text (str ''let me look that up''), tool_calls = [search_call],
             msg_id = Some ''run-1''\<rparr>"
  have a: "always_search (\<lparr>role = System, content = Text (str ''be helpful''), tool_calls = [],
             msg_id = None\<rparr> # messages (demo_state\<lparr>is_last_step := True\<rparr>)) = Inr ?r"
    by (simp add: always_search_def)
  have b: "always_search (\<lparr>role = System, content = Text (str ''be helpful''), tool_calls = [],
             msg_id = None\<rparr> # messages demo_state) = Inr ?r"
    by (simp add: always_search_def)
  have c: "is_last_step (demo_state\<lparr>is_last_step := True\<rparr>) \<and> tool_calls ?r \<noteq> []"
    by simp
  have d: "\<not> (is_last_step demo_state \<and> tool_calls ?r \<noteq> [])"
    by (simp add: demo_state_def)
  from call_model_fallback [of always_search "str ''be helpful''"
      "demo_state\<lparr>is_last_step := True\<rparr>" ?r] a c
  have 1: "call_model always_search (str ''be helpful'') (demo_state\<lparr>is_last_step := True\<rparr>) =
     Inr [(''messages'',
           [\<lparr>role = AI, content = Text fallback_text, tool_calls = [],
             msg_id = Some ''run-1''\<rparr>])]"
    by simp
  from call_model_fallback [of always_search "str ''be helpful''" demo_state ?r] b d
  have 2: "call_model always_search (str ''be helpful'') demo_state = Inr [(''messages'', [?r])]"
    by blast
  from 1 2 show ?thesis by blast
qed

text \<open>
  Claim C10. On every state with a non-empty transcript, \<open>human_review\<close> returns exactly the
  one-element list holding the last message. Merging that output as the runner does
  (\<open>merge_output\<close>) appends it: the new transcript is the old one followed by a second copy
  of its last message, so it ends with two equal messages, every earlier message is where it
  was, and the flag and the extra fields are unchanged.
\<close>

theorem human_review_appends_copy:
  "messages st \<noteq> [] \<longrightarrow>
     human_review st = Inr [(''messages'', [last (messages st)])]
     \<and> messages (merge_output st [(''messages'', [last (messages st)])]) =
           messages st @ [last (messages st)]
     \<and> messages (merge_output st [(''messages'', [last (messages st)])]) =
           butlast (messages st) @ [last (messages st), last (messages st)]
     \<and> take (length (messages st)) (messages (merge_output st [(''messages'', [last (messages st)])]))
           = messages st
     \<and> is_last_step (merge_output st [(''messages'', [last (messages st)])]) = is_last_step st
     \<and> extras (merge_output st [(''messages'', [last (messages st)])]) = extras st"
  by (simp add: human_review_def merge_output_def dict_get_def Let_def)

theorem human_review_appends_copy_witness:
  "human_review demo_state =
     Inr [(''messages'',
           [\<lparr>role = AI, content = Text (str ''sunny''), tool_calls = [], msg_id = Some ''run-0''\<rparr>])]
   \<and> messages (merge_output demo_state
        [(''messages'',
          [\<lparr>role = AI, content = Text (str ''sunny''), tool_calls = [], msg_id = Some ''run-0''\<rparr>])]) =
     [demo_user_message,
      \<lparr>role = AI, content = Text (str ''sunny''), tool_calls = [], msg_id = Some ''run-0''\<rparr>,
      \<lparr>role = AI, content = Text (str ''sunny''), tool_calls = [], msg_id = Some ''run-0''\<rparr>]"
proof -
  have ne: "messages demo_state \<noteq> []" by (simp add: demo_state_def)
  have l: "last (messages demo_state) =
    \<lparr>role = AI, content = Text (str ''sunny''), tool_calls = [], msg_id = Some ''run-0''\<rparr>"
    by (simp add: demo_state_def)
  have m: "messages demo_state = [demo_user_message,
      \<lparr>role = AI, content = Text (str ''sunny''), tool_calls = [], msg_id = Some ''run-0''\<rparr>]"
    by (simp add: demo_state_def)
  from human_review_appends_copy [of demo_state] ne
  have "human_review demo_state = Inr [(''messages'', [last (messages demo_state)])]
     \<and> messages (merge_output demo_state [(''messages'', [last (messages demo_state)])]) =
           messages demo_state @ [last (messages demo_state)]"
    by blast
  then show ?thesis unfolding l unfolding m by simp
qed

section \<open>Properties of the runner\<close>

text \<open>
  Claim C8. A call of \<open>run_agent_with_time_travel\<close> with a resume identifier that is not
  among the identifiers of the store raises \<open>NotFoundKind\<close> at once: the trace is empty (no
  save, no step), and the store and the graph are as they were.
\<close>

theorem resume_unknown_checkpoint:
  "rid \<notin> set (list_checkpoints cps) \<longrightarrow>
     run_agent_with_time_travel fuel env g cps initial_input (Some rid) modifications =
       \<lparr>outcome = Raised (NotFoundKind rid), store = cps, position = g, trace = []\<rparr>"
proof
  assume "rid \<notin> set (list_checkpoints cps)"
  then have "dict_get cps rid = None"
    by (simp add: list_checkpoints_def dict_get_def map_of_eq_None_iff)
  then show "run_agent_with_time_travel fuel env g cps initial_input (Some rid) modifications =
       \<lparr>outcome = Raised (NotFoundKind rid), store = cps, position = g, trace = []\<rparr>"
    by (simp add: run_agent_with_time_travel_def)
qed

theorem resume_unknown_checkpoint_witness:
  "run_agent_with_time_travel 5 demo_env False [(''ckpt_0'', ''{}'')] [demo_user_message]
     (Some ''ckpt_7'') None =
   \<lparr>outcome = Raised (NotFoundKind ''ckpt_7''), store = [(''ckpt_0'', ''{}'')],
     position = False, trace = []\<rparr>"
proof -
  have "''ckpt_7'' \<notin> set (list_checkpoints [(''ckpt_0'', ''{}'')])"
    by (simp add: list_checkpoints_def)
  with resume_unknown_checkpoint [of "''ckpt_7''" "[(''ckpt_0'', ''{}'')]" 5 demo_env False
      "[demo_user_message]" None]
  show ?thesis by blast
qed

subsection \<open>The loop, by induction on its iterations\<close>

lemma str_of_nat_digit: "n < 10 \<Longrightarrow> str_of_nat n = [digit_char n]"
  by (simp add: str_of_nat.simps)

lemmas run_eval =
  run_agent_with_time_travel_def on_graph_def demo_env_def serialize_state_def
  deserialize_state_def apply_modifications_def store_snapshot_def checkpoint_id_def ckpt_def
  str_of_nat_digit digit_char_def graph_step_def graph_terminal_def next_node_def
  call_model_def human_review_def tool_node_def merge_output_def dict_get_def
  route_model_output_def always_search_password_def always_search_def demo_tool_def
  search_call_def demo_user_message_def demo_state_def graph_start_def Let_def

lemma run_loop_saved_before:
  "saved_before_each_step (serialize_state env) (trace (run_loop fuel env g st cps))"
  by (induction fuel arbitrary: g st cps)
     (auto simp: Let_def split: sum.splits prod.splits bool.splits)

lemma run_loop_final_save:
  "outcome (run_loop fuel env g st cps) = Returned st' \<Longrightarrow>
     \<exists>cid snapshot. trace (run_loop fuel env g st cps) \<noteq> []
        \<and> last (trace (run_loop fuel env g st cps)) = Saved cid snapshot
        \<and> serialize_state env st' = Inr snapshot"
  by (induction fuel arbitrary: g st cps)
     (auto simp: Let_def split: sum.splits prod.splits bool.splits)

lemma run_loop_counts:
  "count_saves (trace (run_loop fuel env g st cps)) =
     count_steps (trace (run_loop fuel env g st cps))
       + (case outcome (run_loop fuel env g st cps) of Returned s \<Rightarrow> 1 | _ \<Rightarrow> 0)"
  by (induction fuel arbitrary: g st cps)
     (auto simp: Let_def count_saves_def count_steps_def
           split: sum.splits prod.splits bool.splits)

lemma run_loop_store:
  "store (run_loop fuel env g st cps) = replay_saves (trace (run_loop fuel env g st cps)) cps"
  by (induction fuel arbitrary: g st cps)
     (auto simp: Let_def store_snapshot_def split: sum.splits prod.splits bool.splits)

text \<open>
  Claim C7. In every run, whatever its length and however it ends, each call of
  \<^verbatim>\<open>graph.execute\<close> comes right after a save of the snapshot of the very state it is given;
  the saves in the trace are exactly the writes that lead from the old store to the new
  one; and a run that returns has, after its last step, exactly one more save, of the
  snapshot of the state it returns, so that it has made one save more than it has made
  steps.
\<close>

theorem checkpoint_before_every_step:
  "(let r = run_agent_with_time_travel fuel (env :: ('d, 'g) collaborators) g cps initial_input
              resume_checkpoint_id modifications
    in saved_before_each_step (serialize_state env) (trace r)
       \<and> store r = replay_saves (trace r) cps
       \<and> (\<forall>st. outcome r = Returned st \<longrightarrow>
             (\<exists>cid snapshot. trace r \<noteq> [] \<and> last (trace r) = Saved cid snapshot
                 \<and> serialize_state env st = Inr snapshot)
             \<and> count_saves (trace r) = count_steps (trace r) + 1))"
proof -
  define P :: "'g run_result \<Rightarrow> bool" where
    "P r \<longleftrightarrow> saved_before_each_step (serialize_state env) (trace r)
       \<and> store r = replay_saves (trace r) cps
       \<and> (\<forall>st. outcome r = Returned st \<longrightarrow>
             (\<exists>cid snapshot. trace r \<noteq> [] \<and> last (trace r) = Saved cid snapshot
                 \<and> serialize_state env st = Inr snapshot)
             \<and> count_saves (trace r) = count_steps (trace r) + 1)" for r
  have loop: "P (run_loop fuel env g s cps)" for s
    unfolding P_def
  proof (intro conjI allI impI)
    show "saved_before_each_step (serialize_state env) (trace (run_loop fuel env g s cps))"
      by (rule run_loop_saved_before)
    show "store (run_loop fuel env g s cps) = replay_saves (trace (run_loop fuel env g s cps)) cps"
      by (rule run_loop_store)
  next
    fix st assume r: "outcome (run_loop fuel env g s cps) = Returned st"
    then show "\<exists>cid snapshot. trace (run_loop fuel env g s cps) \<noteq> []
                 \<and> last (trace (run_loop fuel env g s cps)) = Saved cid snapshot
                 \<and> serialize_state env st = Inr snapshot"
      by (rule run_loop_final_save)
    from r run_loop_counts [of fuel env g s cps]
    show "count_saves (trace (run_loop fuel env g s cps))
                 = count_steps (trace (run_loop fuel env g s cps)) + 1"
      by simp
  qed
  have raised: "P \<lparr>outcome = Raised e, store = cps, position = g, trace = []\<rparr>" for e
    by (simp add: P_def)
  have "P (run_agent_with_time_travel fuel env g cps initial_input resume_checkpoint_id
             modifications)"
    unfolding run_agent_with_time_travel_def
    by (auto intro: loop raised split: option.splits sum.splits)
  then show ?thesis
    unfolding P_def Let_def by blast
qed

theorem checkpoint_before_every_step_witness:
  "outcome (run_agent_with_time_travel 5
       (on_graph demo_ucd always_search_password (str ''be helpful'') demo_tool 3 demo_env)
       graph_start []
       [demo_user_message] None None)
     = Returned \<lparr>messages =
         [demo_user_message,
          \<lparr>role = AI, content = Text (str ''I will search for your password''),
            tool_calls = [search_call], msg_id = Some ''run-2''\<rparr>,
          \<lparr>role = AI, content = Text (str ''I will search for your password''),
            tool_calls = [search_call], msg_id = Some ''run-2''\<rparr>],
         is_last_step = False, extras = []\<rparr>
   \<and> count_steps (trace (run_agent_with_time_travel 5
       (on_graph demo_ucd always_search_password (str ''be helpful'') demo_tool 3 demo_env)
       graph_start []
       [demo_user_message] None None)) = 2
   \<and> count_saves (trace (run_agent_with_time_travel 5
       (on_graph demo_ucd always_search_password (str ''be helpful'') demo_tool 3 demo_env)
       graph_start []
       [demo_user_message] None None)) = 3"
proof -
  let ?r = "run_agent_with_time_travel 5
       (on_graph demo_ucd always_search_password (str ''be helpful'') demo_tool 3 demo_env)
       graph_start []
       [demo_user_message] None None"
  let ?st = "\<lparr>messages =
         [demo_user_message,
          \<lparr>role = AI, content = Text (str ''I will search for your password''),
            tool_calls = [search_call], msg_id = Some ''run-2''\<rparr>,
          \<lparr>role = AI, content = Text (str ''I will search for your password''),
            tool_calls = [search_call], msg_id = Some ''run-2''\<rparr>],
         is_last_step = False, extras = []\<rparr>"
  have five: "(5::nat) = Suc (Suc (Suc (Suc (Suc 0))))" by simp
  have ret: "outcome ?r = Returned ?st"
    by (simp add: run_eval five scan_eval)
  have steps: "count_steps (trace ?r) = 2"
    by (simp add: run_eval five scan_eval count_steps_def)
  from checkpoint_before_every_step [of 5
      "on_graph demo_ucd always_search_password (str ''be helpful'') demo_tool 3 demo_env"
      graph_start "[]"
      "[demo_user_message]" None None] ret
  have "count_saves (trace ?r) = count_steps (trace ?r) + 1"
    unfolding Let_def by blast
  with ret steps show ?thesis by simp
qed

section \<open>Properties of the checkpoint store\<close>

subsection \<open>Identifiers are told apart by their number\<close>

lemma digit_char_inj: "a < 10 \<Longrightarrow> b < 10 \<Longrightarrow> digit_char a = digit_char b \<Longrightarrow> a = b"
proof -
  have dc: "map digit_char [0..<10] = ''0123456789''"
    by (simp add: digit_char_def upt_rec numeral_nat nth_Cons')
  have "distinct ''0123456789''" by simp
  then have "distinct (map digit_char [0..<10])" using dc by simp
  then have "inj_on digit_char (set [0..<10])" by (simp add: distinct_map)
  then show "a < 10 \<Longrightarrow> b < 10 \<Longrightarrow> digit_char a = digit_char b \<Longrightarrow> a = b"
    by (auto simp: inj_on_def)
qed

lemma str_of_nat_nonempty: "str_of_nat n \<noteq> []"
  by (subst str_of_nat.simps) simp

lemma str_of_nat_length1: "length (str_of_nat n) = Suc 0 \<longleftrightarrow> n < 10"
  by (subst str_of_nat.simps) (simp add: str_of_nat_nonempty)

lemma str_of_nat_inj: "str_of_nat n = str_of_nat m \<Longrightarrow> n = m"
proof (induction n arbitrary: m rule: str_of_nat.induct)
  case (1 n)
  show ?case
  proof (cases "n < 10")
    case True
    from True have "str_of_nat n = [digit_char n]" by (rule str_of_nat_digit)
    with "1.prems" have "str_of_nat m = [digit_char n]" by simp
    then have "length (str_of_nat m) = 1" by simp
    then have m: "m < 10" by (simp add: str_of_nat_length1)
    with True "1.prems" show ?thesis by (simp add: str_of_nat_digit digit_char_inj)
  next
    case False
    then have "length (str_of_nat n) \<noteq> 1" by (simp add: str_of_nat_length1)
    with "1.prems" have m: "\<not> m < 10" by (simp add: str_of_nat_length1)
    have en: "str_of_nat n = str_of_nat (n div 10) @ [digit_char (n mod 10)]"
      using False by (subst str_of_nat.simps) simp
    have em: "str_of_nat m = str_of_nat (m div 10) @ [digit_char (m mod 10)]"
      using m by (subst str_of_nat.simps) simp
    from "1.prems" en em have a: "str_of_nat (n div 10) = str_of_nat (m div 10)"
      and b: "digit_char (n mod 10) = digit_char (m mod 10)" by simp_all
    from "1.IH" [OF False a] have d: "n div 10 = m div 10" .
    from b have r: "n mod 10 = m mod 10" by (intro digit_char_inj) simp_all
    from d r show ?thesis by (metis div_mult_mod_eq)
  qed
qed


lemma dict_set_new: "k \<notin> fst ` set d \<Longrightarrow> dict_set k v d = d @ [(k, v)]"
  by (induction d) auto

lemma store_after_snoc:
  "store_after (snapshots @ [snapshot]) = snd (store_snapshot snapshot (store_after snapshots))"
  by (simp add: store_after_def)

lemma ckpt_inj: "ckpt n = ckpt m \<Longrightarrow> n = m"
  by (simp add: ckpt_def str_of_nat_inj)

lemma store_after_eq:
  "store_after snapshots = zip (map ckpt [0..<length snapshots]) snapshots"
proof (induction snapshots rule: rev_induct)
  case Nil
  show ?case by (simp add: store_after_def)
next
  case (snoc x xs)
  let ?ids = "map ckpt [0..<length xs]"
  have len: "length (store_after xs) = length xs" by (simp add: snoc.IH)
  have "map fst (store_after xs) = ?ids"
    unfolding snoc.IH by (simp add: map_fst_zip)
  then have "set (map fst (store_after xs)) = set ?ids" by simp
  then have "fst ` set (store_after xs) = set ?ids" by simp
  moreover have "ckpt (length xs) \<notin> set ?ids"
    by (auto dest: ckpt_inj)
  ultimately have new: "ckpt (length xs) \<notin> fst ` set (store_after xs)"
    by simp
  have "store_after (xs @ [x]) = store_after xs @ [(ckpt (length xs), x)]"
    by (simp add: store_after_snoc store_snapshot_def checkpoint_id_def Let_def len
        dict_set_new [OF new])
  then show ?case by (simp add: snoc.IH)
qed

lemma list_checkpoints_store_after:
  "list_checkpoints (store_after snapshots) = map ckpt [0..<length snapshots]"
  by (simp add: list_checkpoints_def store_after_eq map_fst_zip)

lemma distinct_ckpts: "distinct (map ckpt [0..<n])"
  by (simp add: distinct_map inj_on_def ckpt_inj)

lemma store_snapshot_store_after:
  "store_snapshot snapshot (store_after snapshots) =
     (ckpt (length snapshots), store_after snapshots @ [(ckpt (length snapshots), snapshot)])"
proof -
  have len: "length (store_after snapshots) = length snapshots" by (simp add: store_after_eq)
  have "store_after (snapshots @ [snapshot]) =
      store_after snapshots @ [(ckpt (length snapshots), snapshot)]"
    by (simp add: store_after_eq)
  then show ?thesis
    by (simp add: store_after_snoc store_snapshot_def Let_def checkpoint_id_def len)
qed

lemma store_after_kept:
  fixes later :: "string list"
  shows "i < length snapshots \<Longrightarrow>
     dict_get (store_after (snapshots @ later)) (ckpt i) = Some (snapshots ! i)"
proof -
  assume i: "i < length snapshots"
  let ?all = "snapshots @ later"
  have d: "distinct (map fst (store_after ?all))"
    using distinct_ckpts [of "length ?all"] list_checkpoints_store_after [of ?all]
    by (simp add: list_checkpoints_def)
  have "(ckpt i, snapshots ! i) \<in> set (store_after ?all)"
    unfolding store_after_eq using i
    by (auto simp: set_zip nth_append intro!: exI [of _ i])
  with d show ?thesis by (simp add: dict_get_def)
qed

lemma store_snapshot_store_after':
  "store_snapshot snapshot (store_after snapshots) =
     (ckpt (length snapshots), store_after (snapshots @ [snapshot]))"
proof -
  have "store_after (snapshots @ [snapshot]) =
      store_after snapshots @ [(ckpt (length snapshots), snapshot)]"
    by (simp add: store_after_eq)
  then show ?thesis by (simp only: store_snapshot_store_after)
qed

lemma length_saved_snapshots: "length (saved_snapshots t) = count_saves t"
  by (induction t rule: saved_snapshots.induct) (simp_all add: count_saves_def)

lemma run_loop_store_after:
  "store (run_loop fuel env g st (store_after snapshots)) =
     store_after (snapshots @ saved_snapshots (trace (run_loop fuel env g st (store_after snapshots))))"
  by (induction fuel arbitrary: g st snapshots)
     (auto simp: Let_def store_snapshot_store_after' split: sum.splits bool.splits)

text \<open>
  Claim C4. In every store that saves have built from the empty one: the identifiers listed
  by \<open>list_checkpoints\<close> are \<open>ckpt 0\<close>, \<open>ckpt 1\<close>, ... in the order of the saves, as many as
  there were saves, and no two are equal; \<open>ckpt n\<close> is the text "ckpt_" followed by the
  decimal digits of \<open>n\<close>; the next save takes the identifier numbered by the count of
  saves so far and appends its entry, leaving every entry that was there as it was; every
  snapshot stays under its identifier whatever is saved later; a call of the runner on such
  a store leaves a store that lists one identifier more per save of its trace; and a run
  resumed from \<open>ckpt 0\<close> in a store that holds this one checkpoint makes its first save
  under \<open>ckpt 1\<close>.
\<close>

theorem checkpoint_ids_sequential:
  "list_checkpoints (store_after snapshots) = map ckpt [0..<length snapshots]
   \<and> length (list_checkpoints (store_after snapshots)) = length snapshots
   \<and> distinct (list_checkpoints (store_after snapshots))
   \<and> ckpt n = ''ckpt_'' @ str_of_nat n
   \<and> store_snapshot snapshot (store_after snapshots) =
        (ckpt (length snapshots), store_after snapshots @ [(ckpt (length snapshots), snapshot)])
   \<and> (\<forall>i < length snapshots.
          dict_get (store_after (snapshots @ later)) (ckpt i) = Some (snapshots ! i))
   \<and> (let r = run_agent_with_time_travel fuel (env :: ('d, 'g) collaborators) g
                (store_after snapshots) initial_input resume_checkpoint_id modifications
       in list_checkpoints (store r) = map ckpt [0..<length snapshots + count_saves (trace r)])
   \<and> (deserialize_state env old_snapshot = Inr st
        \<and> serialize_state env (apply_modifications modifications st) = Inr new_snapshot \<longrightarrow>
        (\<exists>rest. trace (run_agent_with_time_travel (Suc fuel) env g (store_after [old_snapshot])
                        initial_input (Some (ckpt 0)) modifications)
               = Saved (ckpt 1) new_snapshot # rest))"
proof (intro conjI allI impI)
  show "list_checkpoints (store_after snapshots) = map ckpt [0..<length snapshots]"
    by (rule list_checkpoints_store_after)
  then show "length (list_checkpoints (store_after snapshots)) = length snapshots"
    by simp
  show "distinct (list_checkpoints (store_after snapshots))"
    by (simp only: list_checkpoints_store_after distinct_ckpts)
  show "ckpt n = ''ckpt_'' @ str_of_nat n"
    by (rule ckpt_def)
  show "store_snapshot snapshot (store_after snapshots) =
        (ckpt (length snapshots), store_after snapshots @ [(ckpt (length snapshots), snapshot)])"
    by (rule store_snapshot_store_after)
next
  fix i assume "i < length snapshots"
  then show "dict_get (store_after (snapshots @ later)) (ckpt i) = Some (snapshots ! i)"
    by (rule store_after_kept)
next
  have loop: "list_checkpoints (store (run_loop fuel env g s (store_after snapshots))) =
      map ckpt [0..<length snapshots
                   + count_saves (trace (run_loop fuel env g s (store_after snapshots)))]" for s
    by (simp add: run_loop_store_after list_checkpoints_store_after length_saved_snapshots)
  have raised: "list_checkpoints (store_after snapshots) =
      map ckpt [0..<length snapshots + count_saves []]"
    by (simp add: list_checkpoints_store_after count_saves_def)
  show "let r = run_agent_with_time_travel fuel env g (store_after snapshots) initial_input
                  resume_checkpoint_id modifications
        in list_checkpoints (store r) = map ckpt [0..<length snapshots + count_saves (trace r)]"
    unfolding Let_def run_agent_with_time_travel_def
    by (auto simp: loop raised split: option.splits sum.splits)
next
  assume h: "deserialize_state env old_snapshot = Inr st
        \<and> serialize_state env (apply_modifications modifications st) = Inr new_snapshot"
  have one: "store_after [old_snapshot] = [(ckpt 0, old_snapshot)]"
    by (simp add: store_after_eq)
  have next_id: "store_snapshot new_snapshot (store_after [old_snapshot]) =
      (ckpt 1, store_after [old_snapshot] @ [(ckpt 1, new_snapshot)])"
    using store_snapshot_store_after [of new_snapshot "[old_snapshot]"] by simp
  have "dict_get (store_after [old_snapshot]) (ckpt 0) = Some old_snapshot"
    by (simp add: one dict_get_def)
  with h have "run_agent_with_time_travel (Suc fuel) env g (store_after [old_snapshot])
                 initial_input (Some (ckpt 0)) modifications
      = run_loop (Suc fuel) env g (apply_modifications modifications st) (store_after [old_snapshot])"
    by (simp add: run_agent_with_time_travel_def)
  moreover have "\<exists>rest. trace (run_loop (Suc fuel) env g (apply_modifications modifications st)
                   (store_after [old_snapshot])) = Saved (ckpt 1) new_snapshot # rest"
    using h by (auto simp: next_id Let_def split: sum.splits bool.splits prod.splits)
  ultimately show "\<exists>rest. trace (run_agent_with_time_travel (Suc fuel) env g
       (store_after [old_snapshot]) initial_input (Some (ckpt 0)) modifications)
               = Saved (ckpt 1) new_snapshot # rest"
    by simp
qed

theorem checkpoint_ids_sequential_witness:
  "list_checkpoints (store_after [''a'', ''b'', ''c'']) = [''ckpt_0'', ''ckpt_1'', ''ckpt_2'']
   \<and> dict_get (store_after ([''a'', ''b''] @ [''c''])) ''ckpt_1'' = Some ''b''
   \<and> hd (trace (run_agent_with_time_travel 3 demo_env False (store_after [''{}''])
                  [] (Some ''ckpt_0'') (Some [Set_is_last_step True])))
       = Saved ''ckpt_1'' ''{}''"
proof -
  have c0: "ckpt 0 = ''ckpt_0''" and c1: "ckpt 1 = ''ckpt_1''" and c2: "ckpt 2 = ''ckpt_2''"
    by (simp_all add: ckpt_def str_of_nat_digit digit_char_def)
  have s1: "ckpt (Suc 0) = ''ckpt_1''" using c1 by simp
  have s2: "ckpt (Suc (Suc 0)) = ''ckpt_2''" using c2 by (simp add: numeral_2_eq_2)
  have up: "[0..<3] = [0, 1, 2]" by (simp add: upt_rec)
  note inst = checkpoint_ids_sequential [where snapshots = "[''a'', ''b'']" and later = "[''c'']"
      and env = demo_env and old_snapshot = "''{}''" and st = demo_state and fuel = 2
      and g = False and initial_input = "[]" and modifications = "Some [Set_is_last_step True]"
      and new_snapshot = "''{}''"]
  have "list_checkpoints (store_after [''a'', ''b'', ''c'']) =
      map ckpt [0..<length [''a'', ''b'', ''c'']]"
    by (rule checkpoint_ids_sequential [where snapshots = "[''a'', ''b'', ''c'']"
      and env = demo_env, THEN conjunct1])
  then have a: "list_checkpoints (store_after [''a'', ''b'', ''c'']) =
      [''ckpt_0'', ''ckpt_1'', ''ckpt_2'']"
    by (simp add: up c0 s1 s2)
  have "(1::nat) < length [''a'', ''b'']" by simp
  with inst have "dict_get (store_after ([''a'', ''b''] @ [''c''])) (ckpt 1) = Some ([''a'', ''b''] ! 1)"
    by blast
  then have b: "dict_get (store_after ([''a'', ''b''] @ [''c''])) ''ckpt_1'' = Some ''b''"
    by (simp add: s1)
  have h: "deserialize_state demo_env ''{}'' = Inr demo_state
        \<and> serialize_state demo_env
             (apply_modifications (Some [Set_is_last_step True]) demo_state) = Inr ''{}''"
    by (simp add: deserialize_state_def serialize_state_def demo_env_def)
  with inst have "\<exists>rest. trace (run_agent_with_time_travel (Suc 2) demo_env False
       (store_after [''{}'']) [] (Some (ckpt 0)) (Some [Set_is_last_step True]))
               = Saved (ckpt 1) ''{}'' # rest"
    by blast
  then have c: "hd (trace (run_agent_with_time_travel 3 demo_env False (store_after [''{}''])
                  [] (Some ''ckpt_0'') (Some [Set_is_last_step True])))
       = Saved ''ckpt_1'' ''{}''"
    by (auto simp: c0 s1 eval_nat_numeral)
  from a b c show ?thesis by blast
qed

section \<open>The step budget\<close>

lemma fallback_not_sensitive:
  "contains_sensitive_info ucd
       \<lparr>role = AI, content = Text fallback_text, tool_calls = [], msg_id = i\<rparr> = Inr False"
  by (simp add: scan_eval fallback_text_def)

lemma serialize_on_graph [simp]:
  "serialize_state (on_graph ucd model system_message tool N env) = serialize_state env"
  by (rule ext) (simp add: serialize_state_def on_graph_def split: sum.splits)

lemma execute_on_graph [simp]:
  "graph_execute (on_graph ucd model system_message tool N env) =
     graph_step ucd model system_message tool N"
  "graph_is_terminal (on_graph ucd model system_message tool N env) = graph_terminal ucd"
  by (simp_all add: on_graph_def)







section \<open>Further properties\<close>

text \<open>
  The fallback message ends the run: after \<open>call_model\<close> has appended it, the router answers
  with the end, whatever the transcript before it and whatever the identifier.
\<close>

theorem fallback_routes_to_end:
  "route_model_output ucd
     (st\<lparr>messages := messages st @
        [\<lparr>role = AI, content = Text fallback_text, tool_calls = [], msg_id = i\<rparr>]\<rparr>)
   = Inr Route_end"
  by (simp add: route_model_output_def fallback_not_sensitive)

text \<open>
  \<open>serialize_state\<close> and \<open>deserialize_state\<close> (lines 98-113) only compose \<^verbatim>\<open>to_dict\<close> with
  \<^verbatim>\<open>json.dumps\<close> and \<^verbatim>\<open>json.loads\<close> with \<^verbatim>\<open>from_dict\<close>. A state comes back from its
  snapshot exactly when these four do their part on it: if \<^verbatim>\<open>json.loads\<close> reads back the
  dict that \<^verbatim>\<open>json.dumps\<close> wrote, and \<^verbatim>\<open>from_dict\<close> rebuilds the state from it, the state is
  restored; and nothing else restores it.
\<close>

theorem deserialize_serialize_iff:
  "to_dict env st = Inr d \<and> json_dumps env d = Inr text \<longrightarrow>
     serialize_state env st = Inr text
     \<and> (deserialize_state env text = Inr st \<longleftrightarrow>
          (\<exists>d'. json_loads env text = Inr d' \<and> from_dict env d' = Inr st))"
  by (auto simp: serialize_state_def deserialize_state_def split: sum.splits)

theorem deserialize_serialize_iff_witness:
  "serialize_state demo_env demo_state = Inr ''{}''
   \<and> deserialize_state demo_env ''{}'' = Inr demo_state"
proof -
  have h: "to_dict demo_env demo_state = Inr demo_state
      \<and> json_dumps demo_env demo_state = Inr ''{}''"
    by (simp add: demo_env_def)
  have "\<exists>d'. json_loads demo_env ''{}'' = Inr d' \<and> from_dict demo_env d' = Inr demo_state"
    by (simp add: demo_env_def)
  with deserialize_serialize_iff [of demo_env demo_state demo_state "''{}''"] h
  show ?thesis by blast
qed

end
